theory Spec2Isabelle
  imports Complex_Main "HOL-Library.AList"
begin

section \<open>Decimal arithmetic\<close>

text \<open>
  The services compute with Python's \<^verbatim>\<open>decimal.Decimal\<close>. A \<^verbatim>\<open>Decimal\<close> is
  modelled by the rational number it denotes, so sums, differences, products and
  quotients are exact. The default context rounds every result to 28 significant
  digits; the model covers the values for which that limit is not reached (the columns
  are \<^verbatim>\<open>Numeric(18, 2)\<close> and \<^verbatim>\<open>Numeric(18, 8)\<close>). A negative zero is the
  rational \<open>0\<close>: Python compares both zeros equal and treats both as false.

  \<^verbatim>\<open>x.quantize(Decimal('0.01'), rounding=ROUND_HALF_UP)\<close> rounds to the nearest
  multiple of \<open>10\<^sup>-\<^sup>2\<close>, a tie going away from zero; \<open>quantize_half_up n\<close> is the
  same with \<open>n\<close> fractional digits.
\<close>

definition quantize_half_up :: "nat \<Rightarrow> rat \<Rightarrow> rat" where
  "quantize_half_up n x =
     (let scaled = x * 10 ^ n
      in (if 0 \<le> scaled then of_int \<lfloor>scaled + 1 / 2\<rfloor>
          else - of_int \<lfloor>- scaled + 1 / 2\<rfloor>) / 10 ^ n)"

text \<open>
  \<^verbatim>\<open>v.quantize(...) if v else None\<close>: the conditional expression tests the truth
  value of \<^verbatim>\<open>v\<close>, and both \<^verbatim>\<open>None\<close> and a zero \<^verbatim>\<open>Decimal\<close> are false.
\<close>

definition quantize_if_truthy :: "nat \<Rightarrow> rat option \<Rightarrow> rat option" where
  "quantize_if_truthy n v =
     (case v of
        None \<Rightarrow> None
      | Some d \<Rightarrow> if d \<noteq> 0 then Some (quantize_half_up n d) else None)"

text \<open>A value with at most two fractional digits, as a \<^verbatim>\<open>Numeric(18, 2)\<close> column holds.\<close>

definition is_cents :: "rat \<Rightarrow> bool" where
  "is_cents x \<longleftrightarrow> of_int \<lfloor>x * 100\<rfloor> = x * 100"

section \<open>Data model (app/models)\<close>

text \<open>
  Identifiers are UUIDs in the source, natural numbers here. A timestamp is an instant
  on the time line, an integer count of clock ticks. Fields that two records of the
  source share by name carry the record's prefix in the later record.
\<close>

record NormalizedTrade =
  trade_id :: nat
  account_id :: "string option"
  symbol :: string
  side :: string
  quantity :: rat
  price :: rat
  executed_at :: int

record ClosedLot =
  lot_account_id :: "string option"
  lot_symbol :: string
  position_type :: string
  open_trade_id :: nat
  open_quantity :: rat
  open_price :: rat
  open_executed_at :: int
  close_trade_id :: nat
  close_quantity :: rat
  close_price :: rat
  close_executed_at :: int
  realized_pnl :: rat

section \<open>FIFO matching engine (app/services/fifo\_engine.py)\<close>

text \<open>
  The engine object: two \<^verbatim>\<open>defaultdict(deque)\<close> from symbol to a queue of
  (trade, remaining quantity) pairs, and the list of closed lots. A
  \<^verbatim>\<open>defaultdict(deque)\<close> yields the empty queue for a key it does not hold, so it
  is a total function from symbols to queues.
\<close>

type_synonym position_queue = "(NormalizedTrade \<times> rat) list"

record FIFOEngine =
  long_queues :: "string \<Rightarrow> position_queue"
  short_queues :: "string \<Rightarrow> position_queue"
  closed_lots :: "ClosedLot list"

definition FIFOEngine_init :: FIFOEngine where
  "FIFOEngine_init =
     \<lparr>long_queues = (\<lambda>_. []), short_queues = (\<lambda>_. []), closed_lots = []\<rparr>"

definition create_closed_lot ::
  "NormalizedTrade \<Rightarrow> NormalizedTrade \<Rightarrow> rat \<Rightarrow> string \<Rightarrow> ClosedLot" where
  "create_closed_lot open_trade close_trade qty ptype =
     (let open_px = price open_trade;
          close_px = price close_trade;
          pnl = (if ptype = ''LONG'' then (close_px - open_px) * qty
                 else (open_px - close_px) * qty)
      in \<lparr>lot_account_id = account_id open_trade,
          lot_symbol = symbol open_trade,
          position_type = ptype,
          open_trade_id = trade_id open_trade,
          open_quantity = qty,
          open_price = open_px,
          open_executed_at = executed_at open_trade,
          close_trade_id = trade_id close_trade,
          close_quantity = qty,
          close_price = close_px,
          close_executed_at = executed_at close_trade,
          realized_pnl = quantize_half_up 2 pnl\<rparr>)"

text \<open>
  The \<^verbatim>\<open>while remaining > 0 and queue\<close> loop of \<^verbatim>\<open>_match_against_queue\<close>. It
  mutates the queue and appends to \<^verbatim>\<open>self.closed_lots\<close>; the model returns the
  remaining quantity, the queue and the lot list after the loop.
\<close>

function match_against_queue ::
  "NormalizedTrade \<Rightarrow> string \<Rightarrow> rat \<Rightarrow> position_queue \<Rightarrow> ClosedLot list
     \<Rightarrow> rat \<times> position_queue \<times> ClosedLot list" where
  "match_against_queue trade ptype remaining [] lots = (remaining, [], lots)"
| "match_against_queue trade ptype remaining ((open_trade, open_qty) # rest) lots =
     (if remaining > 0 then
        (if open_qty - min remaining open_qty = 0
         then match_against_queue trade ptype (remaining - min remaining open_qty) rest
                (lots @ [create_closed_lot open_trade trade (min remaining open_qty) ptype])
         else match_against_queue trade ptype (remaining - min remaining open_qty)
                ((open_trade, open_qty - min remaining open_qty) # rest)
                (lots @ [create_closed_lot open_trade trade (min remaining open_qty) ptype]))
      else (remaining, (open_trade, open_qty) # rest, lots))"
  by pat_completeness auto
termination
  by (relation "measure (\<lambda>(trade, ptype, remaining, queue, lots).
                  2 * length queue + (if remaining > 0 then 1 else 0))")
     (auto simp: min_def split: if_splits)

definition process_trade :: "FIFOEngine \<Rightarrow> NormalizedTrade \<Rightarrow> FIFOEngine" where
  "process_trade s trade =
     (let sym = symbol trade; qty = quantity trade
      in if side trade = ''BUY'' then
           (case match_against_queue trade ''SHORT'' qty (short_queues s sym) (closed_lots s) of
              (remaining, queue, lots) \<Rightarrow>
                (let s1 = s\<lparr>short_queues := (short_queues s)(sym := queue),
                             closed_lots := lots\<rparr>
                 in if remaining > 0
                    then s1\<lparr>long_queues :=
                              (long_queues s1)(sym := long_queues s1 sym @ [(trade, remaining)])\<rparr>
                    else s1))
         else if side trade = ''SELL'' then
           (case match_against_queue trade ''LONG'' qty (long_queues s sym) (closed_lots s) of
              (remaining, queue, lots) \<Rightarrow>
                (let s1 = s\<lparr>long_queues := (long_queues s)(sym := queue),
                             closed_lots := lots\<rparr>
                 in if remaining > 0
                    then s1\<lparr>short_queues :=
                              (short_queues s1)(sym := short_queues s1 sym @ [(trade, remaining)])\<rparr>
                    else s1))
         else s)"

text \<open>The \<^verbatim>\<open>for trade in trades\<close> loop of \<^verbatim>\<open>process_trades\<close>.\<close>

fun run_trades :: "FIFOEngine \<Rightarrow> NormalizedTrade list \<Rightarrow> FIFOEngine" where
  "run_trades s [] = s"
| "run_trades s (trade # trades) = run_trades (process_trade s trade) trades"

text \<open>
  \<^verbatim>\<open>process_trades\<close> clears both queue maps and the lot list of the engine it is
  called on, runs the loop and returns \<^verbatim>\<open>self.closed_lots\<close>. The model returns
  the lot list together with the engine after the call.
\<close>

definition process_trades ::
  "FIFOEngine \<Rightarrow> NormalizedTrade list \<Rightarrow> ClosedLot list \<times> FIFOEngine" where
  "process_trades s trades =
     (let s0 = s\<lparr>long_queues := (\<lambda>_. []), short_queues := (\<lambda>_. []), closed_lots := []\<rparr>;
          s1 = run_trades s0 trades
      in (closed_lots s1, s1))"

section \<open>Daily series and aggregates (app/services/metrics\_calculator.py)\<close>

text \<open>
  A calendar date is its proleptic Gregorian ordinal (\<^verbatim>\<open>date.toordinal()\<close>), so
  \<^verbatim>\<open>d + timedelta(days=1)\<close> is \<open>d + 1\<close> and \<^verbatim>\<open>d.weekday()\<close> is
  \<open>(d + 6) mod 7\<close>; the model covers dates for which \<^verbatim>\<open>datetime.date\<close> does not
  overflow. The conversion \<^verbatim>\<open>ts.astimezone(EST).date()\<close> belongs to the pytz
  library; it is the parameter \<open>to_est_date\<close> of the functions below, from instants to
  dates, and nothing is assumed of it.

  A \<^verbatim>\<open>dict\<close> is an association list in insertion order with distinct keys:
  \<^const>\<open>map_of\<close> looks a key up, \<^const>\<open>AList.update\<close> stores a value (in place for a
  key already held, at the end for a new one), \<^const>\<open>AList.update_with_aux\<close> is the
  read-modify-write of a \<^verbatim>\<open>defaultdict\<close>.
\<close>

datatype py_error = KeyError

record PerDayPnL =
  pd_account_id :: "string option"
  date :: int
  daily_pnl :: rat
  cumulative_pnl :: rat
  lots_closed :: nat

text \<open>
  An \<^verbatim>\<open>Aggregate\<close> object holds \<^verbatim>\<open>None\<close> in every attribute the constructor
  call does not set (the column defaults apply when the row is inserted, outside the
  calculator), so every field is an option.
\<close>

record Aggregate =
  agg_account_id :: "string option"
  total_realized_pnl :: "rat option"
  total_lots_closed :: "nat option"
  total_trades :: "nat option"
  winning_lots :: "nat option"
  losing_lots :: "nat option"
  total_gains :: "rat option"
  total_losses :: "rat option"
  win_rate :: "rat option"
  profit_factor :: "rat option"
  average_gain :: "rat option"
  average_loss :: "rat option"
  best_symbol :: "string option"
  best_symbol_pnl :: "rat option"
  worst_symbol :: "string option"
  worst_symbol_pnl :: "rat option"
  best_weekday :: "string option"
  best_weekday_pnl :: "rat option"
  worst_weekday :: "string option"
  worst_weekday_pnl :: "rat option"
  first_trade_date :: "int option"
  last_trade_date :: "int option"

text \<open>\<^verbatim>\<open>Aggregate(account_id=self.account_id)\<close>\<close>

definition Aggregate_of_account :: "string option \<Rightarrow> Aggregate" where
  "Aggregate_of_account acct =
     \<lparr>agg_account_id = acct, total_realized_pnl = None, total_lots_closed = None,
      total_trades = None, winning_lots = None, losing_lots = None, total_gains = None,
      total_losses = None, win_rate = None, profit_factor = None, average_gain = None,
      average_loss = None, best_symbol = None, best_symbol_pnl = None,
      worst_symbol = None, worst_symbol_pnl = None, best_weekday = None,
      best_weekday_pnl = None, worst_weekday = None, worst_weekday_pnl = None,
      first_trade_date = None, last_trade_date = None\<rparr>"

text \<open>
  \<^verbatim>\<open>for lot in closed_lots: daily_lots[close_date].append(lot)\<close> on a
  \<^verbatim>\<open>defaultdict(list)\<close>.
\<close>

definition group_by_close_date ::
  "(int \<Rightarrow> int) \<Rightarrow> ClosedLot list \<Rightarrow> (int \<times> ClosedLot list) list" where
  "group_by_close_date to_est_date lots =
     foldl (\<lambda>daily_lots lot.
              AList.update_with_aux [] (to_est_date (close_executed_at lot))
                (\<lambda>ls. ls @ [lot]) daily_lots)
       [] lots"

text \<open>
  \<^verbatim>\<open>for day, lots in daily_lots.items(): daily_pnl_dict[day] = (daily_total, len(lots))\<close>
\<close>

definition daily_totals ::
  "(int \<times> ClosedLot list) list \<Rightarrow> (int \<times> rat \<times> nat) list" where
  "daily_totals daily_lots =
     foldl (\<lambda>daily_pnl_dict (day, lots).
              AList.update day (sum_list (map realized_pnl lots), length lots) daily_pnl_dict)
       [] daily_lots"

text \<open>The \<^verbatim>\<open>while current_date <= max_date\<close> loop that fills the gaps.\<close>

function fill_gaps_loop ::
  "int \<Rightarrow> int \<Rightarrow> (int \<times> rat \<times> nat) list \<Rightarrow> (int \<times> rat \<times> nat) list" where
  "fill_gaps_loop current_date max_date daily_pnl_dict =
     (if current_date \<le> max_date then
        fill_gaps_loop (current_date + 1) max_date
          (if map_of daily_pnl_dict current_date = None
           then AList.update current_date (0, 0) daily_pnl_dict
           else daily_pnl_dict)
      else daily_pnl_dict)"
  by pat_completeness auto
termination
  by (relation "measure (\<lambda>(current_date, max_date, d). nat (max_date + 1 - current_date))")
     auto

declare fill_gaps_loop.simps [simp del]

text \<open>
  The \<^verbatim>\<open>for day in sorted_dates\<close> loop: \<^verbatim>\<open>daily_pnl_dict[day]\<close> raises
  \<^verbatim>\<open>KeyError\<close> on a key the dict does not hold.
\<close>

fun build_rows ::
  "string option \<Rightarrow> (int \<times> rat \<times> nat) list \<Rightarrow> int list \<Rightarrow> rat \<Rightarrow> PerDayPnL list
     \<Rightarrow> py_error + PerDayPnL list" where
  "build_rows acct daily_pnl_dict [] cumulative rows = Inr rows"
| "build_rows acct daily_pnl_dict (day # days) cumulative rows =
     (case map_of daily_pnl_dict day of
        None \<Rightarrow> Inl KeyError
      | Some (daily_total, lots_count) \<Rightarrow>
          build_rows acct daily_pnl_dict days (cumulative + daily_total)
            (rows @ [\<lparr>pd_account_id = acct,
                      date = day,
                      daily_pnl = quantize_half_up 2 daily_total,
                      cumulative_pnl = quantize_half_up 2 (cumulative + daily_total),
                      lots_closed = lots_count\<rparr>]))"

definition generate_daily_pnl_series ::
  "(int \<Rightarrow> int) \<Rightarrow> string option \<Rightarrow> ClosedLot list \<Rightarrow> bool \<Rightarrow> py_error + PerDayPnL list" where
  "generate_daily_pnl_series to_est_date acct lots fill_gaps =
     (if lots = [] then Inr []
      else
        (let daily_lots = group_by_close_date to_est_date lots;
             daily_pnl_dict = daily_totals daily_lots
         in if daily_pnl_dict = [] then Inr []
            else
              (let min_date = Min (set (map fst daily_pnl_dict));
                   max_date = Max (set (map fst daily_pnl_dict));
                   filled = (if fill_gaps
                             then fill_gaps_loop min_date max_date daily_pnl_dict
                             else daily_pnl_dict);
                   sorted_dates = sort (map fst filled)
               in build_rows acct filled sorted_dates 0 [])))"

text \<open>
  \<^verbatim>\<open>max(d.items(), key=lambda x: x[1])\<close> and \<^verbatim>\<open>min\<close> alike return the first
  of several extremal items; the first argument is the best item so far.
\<close>

fun max_by_value :: "'k \<times> rat \<Rightarrow> ('k \<times> rat) list \<Rightarrow> 'k \<times> rat" where
  "max_by_value best [] = best"
| "max_by_value best (x # xs) = max_by_value (if snd x > snd best then x else best) xs"

fun min_by_value :: "'k \<times> rat \<Rightarrow> ('k \<times> rat) list \<Rightarrow> 'k \<times> rat" where
  "min_by_value best [] = best"
| "min_by_value best (x # xs) = min_by_value (if snd x < snd best then x else best) xs"

definition weekday_names :: "string list" where
  "weekday_names =
     [''Monday'', ''Tuesday'', ''Wednesday'', ''Thursday'', ''Friday'', ''Saturday'', ''Sunday'']"

definition weekday_name :: "int \<Rightarrow> string" where
  "weekday_name d = weekday_names ! nat ((d + 6) mod 7)"

text \<open>\<^verbatim>\<open>for lot in closed_lots: pnl_by_key[key(lot)] += lot.realized_pnl\<close>\<close>

definition pnl_by ::
  "(ClosedLot \<Rightarrow> string) \<Rightarrow> ClosedLot list \<Rightarrow> (string \<times> rat) list" where
  "pnl_by key lots =
     foldl (\<lambda>d lot. AList.update_with_aux 0 (key lot) (\<lambda>v. v + realized_pnl lot) d) [] lots"

definition calculate_aggregates ::
  "(int \<Rightarrow> int) \<Rightarrow> string option \<Rightarrow> ClosedLot list \<Rightarrow> PerDayPnL list \<Rightarrow> Aggregate" where
  "calculate_aggregates to_est_date acct lots per_day_pnl =
     (if lots = [] then Aggregate_of_account acct
      else
        (let total_pnl = sum_list (map realized_pnl lots);
             total_lots = length lots;
             winning = filter (\<lambda>lot. realized_pnl lot > 0) lots;
             losing = filter (\<lambda>lot. realized_pnl lot < 0) lots;
             gains = sum_list (map realized_pnl winning);
             losses = sum_list (map realized_pnl losing);
             wr = (if total_lots > 0
                   then Some (of_nat (length winning) / of_nat total_lots) else None);
             pf = (if losses < 0 then Some (gains / \<bar>losses\<bar>) else None);
             avg_gain = (if winning \<noteq> []
                         then Some (gains / of_nat (length winning)) else None);
             avg_loss = (if losing \<noteq> []
                         then Some (losses / of_nat (length losing)) else None);
             symbol_pnl = pnl_by lot_symbol lots;
             best_sym = (case symbol_pnl of [] \<Rightarrow> None
                         | x # xs \<Rightarrow> Some (max_by_value x xs));
             worst_sym = (case symbol_pnl of [] \<Rightarrow> None
                          | x # xs \<Rightarrow> Some (min_by_value x xs));
             weekday_pnl =
               pnl_by (\<lambda>lot. weekday_name (to_est_date (close_executed_at lot))) lots;
             best_day = (case weekday_pnl of [] \<Rightarrow> None
                         | x # xs \<Rightarrow> Some (max_by_value x xs));
             worst_day = (case weekday_pnl of [] \<Rightarrow> None
                          | x # xs \<Rightarrow> Some (min_by_value x xs))
         in \<lparr>agg_account_id = acct,
             total_realized_pnl = Some (quantize_half_up 2 total_pnl),
             total_lots_closed = Some total_lots,
             total_trades = Some (total_lots * 2),
             winning_lots = Some (length winning),
             losing_lots = Some (length losing),
             total_gains = Some (quantize_half_up 2 gains),
             total_losses = Some (quantize_half_up 2 losses),
             win_rate = quantize_if_truthy 4 wr,
             profit_factor = quantize_if_truthy 2 pf,
             average_gain = quantize_if_truthy 2 avg_gain,
             average_loss = quantize_if_truthy 2 avg_loss,
             best_symbol = map_option fst best_sym,
             best_symbol_pnl = quantize_if_truthy 2 (map_option snd best_sym),
             worst_symbol = map_option fst worst_sym,
             worst_symbol_pnl = quantize_if_truthy 2 (map_option snd worst_sym),
             best_weekday = map_option fst best_day,
             best_weekday_pnl = quantize_if_truthy 2 (map_option snd best_day),
             worst_weekday = map_option fst worst_day,
             worst_weekday_pnl = quantize_if_truthy 2 (map_option snd worst_day),
             first_trade_date = (if per_day_pnl \<noteq> [] then Some (date (hd per_day_pnl))
                                 else None),
             last_trade_date = (if per_day_pnl \<noteq> [] then Some (date (last per_day_pnl))
                                else None)\<rparr>))"

section \<open>Streaks (app/services/enhanced\_metrics.py)\<close>

text \<open>The five local variables of \<^verbatim>\<open>calculate_streaks\<close>.\<close>

record streak_vars =
  current_streak :: int
  longest_win_streak :: int
  longest_loss_streak :: int
  current_win_streak :: int
  current_loss_streak :: int

definition streak_step :: "streak_vars \<Rightarrow> ClosedLot \<Rightarrow> streak_vars" where
  "streak_step v lot =
     (if realized_pnl lot > 0 then
        v\<lparr>current_win_streak := current_win_streak v + 1,
          current_loss_streak := 0,
          current_streak := current_win_streak v + 1,
          longest_win_streak := max (longest_win_streak v) (current_win_streak v + 1)\<rparr>
      else if realized_pnl lot < 0 then
        v\<lparr>current_loss_streak := current_loss_streak v + 1,
          current_win_streak := 0,
          current_streak := - (current_loss_streak v + 1),
          longest_loss_streak := max (longest_loss_streak v) (current_loss_streak v + 1)\<rparr>
      else
        v\<lparr>current_win_streak := 0, current_loss_streak := 0\<rparr>)"

text \<open>
  \<^verbatim>\<open>sorted(lots, key=lambda x: x.close_executed_at)\<close> is a stable sort, as
  \<^const>\<open>sort_key\<close> is. The function returns a dict of three entries.
\<close>

definition calculate_streaks :: "ClosedLot list \<Rightarrow> (string \<times> int) list" where
  "calculate_streaks lots =
     (let sorted_lots = sort_key close_executed_at lots;
          v = foldl streak_step
                \<lparr>current_streak = 0, longest_win_streak = 0, longest_loss_streak = 0,
                 current_win_streak = 0, current_loss_streak = 0\<rparr>
                sorted_lots
      in [(''current_streak'', current_streak v),
          (''longest_win_streak'', longest_win_streak v),
          (''longest_loss_streak'', longest_loss_streak v)])"

section \<open>The pipeline (app/api/ingest.py, app/api/metrics.py)\<close>

text \<open>
  Both callers run the three stages in this order, with gap filling on. The model
  returns the three outputs, or the error of the series stage, and the engine after
  the run.
\<close>

definition run_pipeline ::
  "(int \<Rightarrow> int) \<Rightarrow> string option \<Rightarrow> FIFOEngine \<Rightarrow> NormalizedTrade list
     \<Rightarrow> (py_error + ClosedLot list \<times> PerDayPnL list \<times> Aggregate) \<times> FIFOEngine" where
  "run_pipeline to_est_date acct engine trades =
     (case process_trades engine trades of
        (lots, engine') \<Rightarrow>
          (case generate_daily_pnl_series to_est_date acct lots True of
             Inl e \<Rightarrow> (Inl e, engine')
           | Inr series \<Rightarrow>
               (Inr (lots, series, calculate_aggregates to_est_date acct lots series),
                engine')))"

section \<open>Example inputs\<close>

text \<open>A lot closed at a loss of 1000.00, one closed at a gain of 1000.00, one at 0.00.\<close>

definition losing_lot :: ClosedLot where
  "losing_lot =
     \<lparr>lot_account_id = None, lot_symbol = ''TSLA'', position_type = ''LONG'',
      open_trade_id = 1, open_quantity = 50, open_price = 200, open_executed_at = 10,
      close_trade_id = 2, close_quantity = 50, close_price = 180, close_executed_at = 20,
      realized_pnl = - 1000\<rparr>"

definition winning_lot :: ClosedLot where
  "winning_lot =
     \<lparr>lot_account_id = None, lot_symbol = ''AAPL'', position_type = ''LONG'',
      open_trade_id = 3, open_quantity = 100, open_price = 150, open_executed_at = 30,
      close_trade_id = 4, close_quantity = 100, close_price = 160, close_executed_at = 40,
      realized_pnl = 1000\<rparr>"

definition breakeven_lot :: ClosedLot where
  "breakeven_lot =
     \<lparr>lot_account_id = None, lot_symbol = ''AAPL'', position_type = ''LONG'',
      open_trade_id = 5, open_quantity = 10, open_price = 150, open_executed_at = 50,
      close_trade_id = 6, close_quantity = 10, close_price = 150, close_executed_at = 60,
      realized_pnl = 0\<rparr>"



definition buy_first :: NormalizedTrade where
  "buy_first =
     \<lparr>trade_id = 1, account_id = None, symbol = ''AAPL'', side = ''BUY'',
      quantity = 100, price = 150, executed_at = 1\<rparr>"

definition buy_second :: NormalizedTrade where
  "buy_second =
     \<lparr>trade_id = 2, account_id = None, symbol = ''AAPL'', side = ''BUY'',
      quantity = 100, price = 155, executed_at = 2\<rparr>"

definition sell_both :: NormalizedTrade where
  "sell_both =
     \<lparr>trade_id = 3, account_id = None, symbol = ''AAPL'', side = ''SELL'',
      quantity = 250, price = 160, executed_at = 3\<rparr>"

text \<open>
  An instance of the date conversion for the examples: instants are POSIX seconds and
  the zone stays at its standard offset of five hours behind UTC. The two lots close on
  2 January 2024 and on 4 January 2024 at 10:00 in that zone, with P&L 1000.00 and
  500.00.
\<close>

definition est_fixed_date :: "int \<Rightarrow> int" where
  "est_fixed_date t = (t - 18000) div 86400 + 719163"

definition gap_example_lots :: "ClosedLot list" where
  "gap_example_lots =
     [\<lparr>lot_account_id = None, lot_symbol = ''AAPL'', position_type = ''LONG'',
       open_trade_id = 1, open_quantity = 100, open_price = 150,
       open_executed_at = 1704121200,
       close_trade_id = 2, close_quantity = 100, close_price = 160,
       close_executed_at = 1704207600, realized_pnl = 1000\<rparr>,
      \<lparr>lot_account_id = None, lot_symbol = ''TSLA'', position_type = ''LONG'',
       open_trade_id = 3, open_quantity = 50, open_price = 200,
       open_executed_at = 1704294000,
       close_trade_id = 4, close_quantity = 50, close_price = 210,
       close_executed_at = 1704380400, realized_pnl = 500\<rparr>]"

section \<open>Properties of the lots and of the series, as predicates\<close>

text \<open>
  The realized P&L of a lot is the price difference in the direction of its position
  times the matched quantity, rounded once; both quantity fields hold the matched
  quantity.
\<close>

definition lot_pnl_ok :: "ClosedLot \<Rightarrow> bool" where
  "lot_pnl_ok lot \<longleftrightarrow>
     (position_type lot = ''LONG''
        \<and> realized_pnl lot =
            quantize_half_up 2 ((close_price lot - open_price lot) * open_quantity lot)
      \<or> position_type lot = ''SHORT''
        \<and> realized_pnl lot =
            quantize_half_up 2 ((open_price lot - close_price lot) * open_quantity lot))
     \<and> close_quantity lot = open_quantity lot"

text \<open>
  The date on which a lot closes, the lots of a list that close on a day, and the pair
  (sum of P&L, count) of those lots, which is what \<^verbatim>\<open>daily_pnl_dict\<close> holds for a
  day; the days of the series, and the rows that the last loop builds from the pairs.
\<close>

definition close_date :: "(int \<Rightarrow> int) \<Rightarrow> ClosedLot \<Rightarrow> int" where
  "close_date to_est_date lot = to_est_date (close_executed_at lot)"

definition lots_on :: "(int \<Rightarrow> int) \<Rightarrow> ClosedLot list \<Rightarrow> int \<Rightarrow> ClosedLot list" where
  "lots_on to_est_date lots day = filter (\<lambda>lot. close_date to_est_date lot = day) lots"

definition day_total :: "(int \<Rightarrow> int) \<Rightarrow> ClosedLot list \<Rightarrow> int \<Rightarrow> rat \<times> nat" where
  "day_total to_est_date lots day =
     (sum_list (map realized_pnl (lots_on to_est_date lots day)),
      length (lots_on to_est_date lots day))"

definition series_days :: "(int \<Rightarrow> int) \<Rightarrow> ClosedLot list \<Rightarrow> bool \<Rightarrow> int list" where
  "series_days to_est_date lots fill_gaps =
     (if fill_gaps
      then [Min (close_date to_est_date ` set lots) .. Max (close_date to_est_date ` set lots)]
      else sorted_list_of_set (close_date to_est_date ` set lots))"

fun rows_from ::
  "string option \<Rightarrow> (int \<Rightarrow> rat \<times> nat) \<Rightarrow> int list \<Rightarrow> rat \<Rightarrow> PerDayPnL list" where
  "rows_from acct totals [] cumulative = []"
| "rows_from acct totals (day # days) cumulative =
     \<lparr>pd_account_id = acct, date = day,
      daily_pnl = quantize_half_up 2 (fst (totals day)),
      cumulative_pnl = quantize_half_up 2 (cumulative + fst (totals day)),
      lots_closed = snd (totals day)\<rparr>
     # rows_from acct totals days (cumulative + fst (totals day))"

section \<open>Evaluating the rounding\<close>

lemma floor_rat_divide_numeral:
  "\<lfloor>numeral a / numeral b :: rat\<rfloor> = numeral a div numeral b"
  by (metis floor_divide_of_int_eq of_int_numeral)

lemma floor_rat_one_divide_numeral:
  "\<lfloor>1 / numeral b :: rat\<rfloor> = 1 div numeral b"
  by (metis floor_divide_of_int_eq of_int_numeral of_int_1)

lemma floor_rat_minus_divide_numeral:
  "\<lfloor>- (numeral a / numeral b) :: rat\<rfloor> = - numeral a div numeral b"
  by (metis floor_divide_of_int_eq of_int_numeral of_int_minus minus_divide_left)

lemmas floor_rat_numeral =
  floor_rat_divide_numeral floor_rat_one_divide_numeral floor_rat_minus_divide_numeral


section \<open>FIFO order\<close>

lemma run_trades_append:
  "run_trades s (xs @ ys) = run_trades (run_trades s xs) ys"
  by (induction xs arbitrary: s) simp_all

lemma process_trade_buy_opens:
  assumes "side b = ''BUY''" "short_queues s (symbol b) = []" "0 < quantity b"
  shows "process_trade s b =
           s\<lparr>long_queues :=
               (long_queues s)(symbol b := long_queues s (symbol b) @ [(b, quantity b)])\<rparr>"
  using assms by (cases s) (simp add: process_trade_def Let_def fun_upd_idem)

text \<open>
  Claim C1. Two BUY trades \<open>b1\<close>, \<open>b2\<close> of one symbol and then a SELL \<open>s\<close> of
  that symbol for at least the sum of their quantities, processed when the symbol has
  no open position (at the start of a run, or after earlier trades that left both of
  its queues empty): the SELL emits exactly two lots, the first opened by \<open>b1\<close> with
  the whole quantity of \<open>b1\<close>, the second opened by \<open>b2\<close> with the whole quantity
  of \<open>b2\<close>, and the two BUYs emit none. The prices need not differ.
\<close>

theorem fifo_order_two_buys_then_sell:
  assumes sides: "side b1 = ''BUY''" "side b2 = ''BUY''" "side s = ''SELL''"
    and symbols: "symbol b2 = symbol b1" "symbol s = symbol b1"
    and quantities: "0 < quantity b1" "0 < quantity b2"
      "quantity b1 + quantity b2 \<le> quantity s"
    and flat: "long_queues (snd (process_trades engine earlier)) (symbol b1) = []"
      "short_queues (snd (process_trades engine earlier)) (symbol b1) = []"
  shows "fst (process_trades engine (earlier @ [b1, b2, s])) =
           fst (process_trades engine earlier) @
             [create_closed_lot b1 s (quantity b1) ''LONG'',
              create_closed_lot b2 s (quantity b2) ''LONG'']"
proof -
  define e0 where "e0 = snd (process_trades engine earlier)"
  have lots0: "closed_lots e0 = fst (process_trades engine earlier)"
    by (simp add: e0_def process_trades_def Let_def)
  have run: "process_trades engine (earlier @ [b1, b2, s]) =
      (closed_lots (run_trades e0 [b1, b2, s]), run_trades e0 [b1, b2, s])"
    by (simp add: e0_def process_trades_def Let_def run_trades_append)
  define e1 where "e1 = process_trade e0 b1"
  have e1: "e1 = e0\<lparr>long_queues := (long_queues e0)(symbol b1 := [(b1, quantity b1)])\<rparr>"
    using process_trade_buy_opens[of b1 e0] sides quantities flat
    by (simp add: e1_def e0_def)
  define e2 where "e2 = process_trade e1 b2"
  have e2: "e2 = e0\<lparr>long_queues :=
                     (long_queues e0)(symbol b1 := [(b1, quantity b1), (b2, quantity b2)])\<rparr>"
    using process_trade_buy_opens[of b2 e1] sides quantities flat symbols
    by (simp add: e2_def e1 e0_def)
  have "closed_lots (process_trade e2 s) =
          closed_lots e0 @
            [create_closed_lot b1 s (quantity b1) ''LONG'',
             create_closed_lot b2 s (quantity b2) ''LONG'']"
    using sides symbols quantities
    by (simp add: process_trade_def e2 min_def Let_def split: prod.splits)
  then show ?thesis
    by (simp add: run lots0 e1_def e2_def)
qed

theorem fifo_order_witness:
  "side buy_first = ''BUY'' \<and> side buy_second = ''BUY'' \<and> side sell_both = ''SELL''
   \<and> symbol buy_second = symbol buy_first \<and> symbol sell_both = symbol buy_first
   \<and> 0 < quantity buy_first \<and> 0 < quantity buy_second
   \<and> quantity buy_first + quantity buy_second \<le> quantity sell_both
   \<and> long_queues (snd (process_trades FIFOEngine_init [])) (symbol buy_first) = []
   \<and> short_queues (snd (process_trades FIFOEngine_init [])) (symbol buy_first) = []
   \<and> map (\<lambda>lot. (open_trade_id lot, open_quantity lot, open_price lot, realized_pnl lot))
         (fst (process_trades FIFOEngine_init [buy_first, buy_second, sell_both]))
       = [(1, 100, 150, 1000), (2, 100, 155, 500)]"
proof -
  have "fst (process_trades FIFOEngine_init ([] @ [buy_first, buy_second, sell_both])) =
          fst (process_trades FIFOEngine_init []) @
            [create_closed_lot buy_first sell_both (quantity buy_first) ''LONG'',
             create_closed_lot buy_second sell_both (quantity buy_second) ''LONG'']"
    by (rule fifo_order_two_buys_then_sell)
       (simp_all add: buy_first_def buy_second_def sell_both_def process_trades_def)
  then show ?thesis
    by (simp add: buy_first_def buy_second_def sell_both_def process_trades_def
          create_closed_lot_def quantize_half_up_def floor_rat_numeral)
qed

section \<open>Realized P&L of a closed lot\<close>

lemma create_closed_lot_ok:
  "ptype = ''LONG'' \<or> ptype = ''SHORT'' \<Longrightarrow> lot_pnl_ok (create_closed_lot ot ct q ptype)"
  by (auto simp: lot_pnl_ok_def create_closed_lot_def Let_def)

lemma match_lots_ok:
  "list_all lot_pnl_ok lots \<Longrightarrow> ptype = ''LONG'' \<or> ptype = ''SHORT'' \<Longrightarrow>
   list_all lot_pnl_ok (snd (snd (match_against_queue trade ptype remaining queue lots)))"
proof (induction trade ptype remaining queue lots rule: match_against_queue.induct)
  case (1 trade ptype remaining lots)
  then show ?case by simp
next
  case (2 trade ptype remaining open_trade open_qty rest lots)
  then show ?case by (simp add: create_closed_lot_ok)
qed

lemma process_trade_lots_ok:
  "list_all lot_pnl_ok (closed_lots s) \<Longrightarrow>
   list_all lot_pnl_ok (closed_lots (process_trade s trade))"
  using match_lots_ok[of "closed_lots s" "''SHORT''" trade "quantity trade"
          "short_queues s (symbol trade)"]
        match_lots_ok[of "closed_lots s" "''LONG''" trade "quantity trade"
          "long_queues s (symbol trade)"]
  by (auto simp: process_trade_def Let_def split: prod.splits)

lemma run_trades_lots_ok:
  "list_all lot_pnl_ok (closed_lots s) \<Longrightarrow>
   list_all lot_pnl_ok (closed_lots (run_trades s trades))"
  by (induction trades arbitrary: s) (simp_all add: process_trade_lots_ok)

lemma process_trades_lots_ok: "list_all lot_pnl_ok (fst (process_trades engine trades))"
  by (simp add: process_trades_def Let_def run_trades_lots_ok)





section \<open>One open side per symbol\<close>

lemma match_drains:
  "fst (match_against_queue trade ptype remaining queue lots) \<le> 0
   \<or> fst (snd (match_against_queue trade ptype remaining queue lots)) = []"
  by (induction trade ptype remaining queue lots rule: match_against_queue.induct) auto

lemma match_queue_length:
  "length (fst (snd (match_against_queue trade ptype remaining queue lots))) \<le> length queue"
  by (induction trade ptype remaining queue lots rule: match_against_queue.induct) auto

lemma process_trade_push_long:
  "length (long_queues (process_trade s trade) sy) \<le> length (long_queues s sy)
   \<or> short_queues (process_trade s trade) sy = []"
  using match_drains[of trade "''SHORT''" "quantity trade" "short_queues s (symbol trade)"
          "closed_lots s"]
        match_queue_length[of trade "''LONG''" "quantity trade"
          "long_queues s (symbol trade)" "closed_lots s"]
  by (auto simp: process_trade_def Let_def split: prod.splits)

lemma process_trade_push_short:
  "length (short_queues (process_trade s trade) sy) \<le> length (short_queues s sy)
   \<or> long_queues (process_trade s trade) sy = []"
  using match_drains[of trade "''LONG''" "quantity trade" "long_queues s (symbol trade)"
          "closed_lots s"]
        match_queue_length[of trade "''SHORT''" "quantity trade"
          "short_queues s (symbol trade)" "closed_lots s"]
  by (auto simp: process_trade_def Let_def split: prod.splits)

lemma process_trade_one_sided:
  assumes "long_queues s sy = [] \<or> short_queues s sy = []"
  shows "long_queues (process_trade s trade) sy = []
         \<or> short_queues (process_trade s trade) sy = []"
  using assms process_trade_push_long[of s trade sy] process_trade_push_short[of s trade sy]
  by auto

lemma run_trades_one_sided:
  "long_queues s sy = [] \<or> short_queues s sy = [] \<Longrightarrow>
   long_queues (run_trades s trades) sy = [] \<or> short_queues (run_trades s trades) sy = []"
  by (induction trades arbitrary: s) (simp_all add: process_trade_one_sided)

text \<open>
  Claim C10. The engine after the first \<open>n\<close> trades of a run, for every \<open>n\<close>, is
  the engine that \<^verbatim>\<open>process_trades\<close> leaves on those \<open>n\<close> trades; in it, for
  every symbol, the long queue or the short queue is empty. One trade, on an engine in
  any state, lengthens the long queue of a symbol only if it leaves the short queue of
  that symbol empty, and lengthens the short queue only if it leaves the long queue
  empty.
\<close>

theorem one_open_side_per_symbol:
  "(long_queues (snd (process_trades engine (take n trades))) sy = []
      \<or> short_queues (snd (process_trades engine (take n trades))) sy = [])
   \<and> (length (long_queues (process_trade s trade) sy) \<le> length (long_queues s sy)
      \<or> short_queues (process_trade s trade) sy = [])
   \<and> (length (short_queues (process_trade s trade) sy) \<le> length (short_queues s sy)
      \<or> long_queues (process_trade s trade) sy = [])"
  using run_trades_one_sided[of "engine\<lparr>long_queues := (\<lambda>_. []),
            short_queues := (\<lambda>_. []), closed_lots := []\<rparr>" sy "take n trades"]
    process_trade_push_long[of s trade sy] process_trade_push_short[of s trade sy]
  by (simp add: process_trades_def Let_def)

section \<open>Amounts in whole cents\<close>

lemma floor_int_plus_half: "\<lfloor>(of_int k :: rat) + 1 / 2\<rfloor> = k"
  by (rule floor_unique) simp_all

lemma quantize_half_up_of_int:
  "quantize_half_up n (of_int k / 10 ^ n) = of_int k / 10 ^ n"
proof (cases "0 \<le> k")
  case True
  then show ?thesis by (simp add: quantize_half_up_def floor_int_plus_half)
next
  case False
  have "\<lfloor>- (of_int k :: rat) + 1 / 2\<rfloor> = - k"
    using floor_int_plus_half[of "- k"] by simp
  with False show ?thesis by (simp add: quantize_half_up_def)
qed

lemma is_cents_iff: "is_cents x \<longleftrightarrow> (\<exists>k. x = of_int k / 100)"
proof
  assume "is_cents x"
  then obtain k :: int where "of_int k = x * 100" unfolding is_cents_def ..
  then have "x = of_int k / 100" by simp
  then show "\<exists>k. x = of_int k / 100" ..
next
  assume "\<exists>k. x = of_int k / 100"
  then obtain k where "x = of_int k / 100" ..
  then show "is_cents x" unfolding is_cents_def by simp
qed

lemma is_cents_quantize: "is_cents x \<Longrightarrow> quantize_half_up 2 x = x"
proof -
  assume "is_cents x"
  then obtain k where "x = of_int k / 100" unfolding is_cents_iff ..
  then have x: "x = of_int k / 10 ^ 2" by simp
  show ?thesis unfolding x by (rule quantize_half_up_of_int)
qed

lemma is_cents_0: "is_cents 0"
  unfolding is_cents_def by simp

lemma is_cents_add: "is_cents a \<Longrightarrow> is_cents b \<Longrightarrow> is_cents (a + b)"
proof -
  assume "is_cents a" "is_cents b"
  then obtain k l where "a = of_int k / 100" "b = of_int l / 100"
    unfolding is_cents_iff by blast
  then have "a + b = of_int (k + l) / 100" by (simp add: add_divide_distrib)
  then show ?thesis unfolding is_cents_iff ..
qed

lemma is_cents_sum_list: "\<forall>x \<in> set xs. is_cents x \<Longrightarrow> is_cents (sum_list xs)"
  by (induction xs) (simp_all add: is_cents_0 is_cents_add)

lemma is_cents_quantized: "is_cents (quantize_half_up 2 x)"
  unfolding is_cents_iff quantize_half_up_def Let_def by (simp split: if_splits) (metis of_int_minus)

section \<open>The dicts of the daily series\<close>

lemma group_fold_map_of:
  "map_of (foldl (\<lambda>daily_lots lot. AList.update_with_aux [] (g lot) (\<lambda>ls. ls @ [lot]) daily_lots) d lots) k =
     (case map_of d k of
        None \<Rightarrow> (if k \<in> g ` set lots then Some (filter (\<lambda>l. g l = k) lots) else None)
      | Some ls \<Rightarrow> Some (ls @ filter (\<lambda>l. g l = k) lots))"
proof (induction lots arbitrary: d)
  case Nil
  then show ?case by (simp split: option.splits)
next
  case (Cons x xs)
  show ?case
    by (simp add: Cons.IH AList.map_of_update_with_aux split: option.splits)
qed

lemma group_fold_keys:
  "fst ` set (foldl (\<lambda>daily_lots lot. AList.update_with_aux [] (g lot) (\<lambda>ls. ls @ [lot]) daily_lots) d lots)
     = fst ` set d \<union> g ` set lots"
  by (induction lots arbitrary: d) (auto simp: AList.dom_update_with_aux)

lemma group_fold_distinct:
  "distinct (map fst (foldl (\<lambda>daily_lots lot. AList.update_with_aux [] (g lot) (\<lambda>ls. ls @ [lot]) daily_lots) d lots))
     = distinct (map fst d)"
  by (induction lots arbitrary: d) simp_all

lemma group_map_of:
  "map_of (group_by_close_date tz lots) k =
     (if k \<in> close_date tz ` set lots then Some (lots_on tz lots k) else None)"
  using group_fold_map_of[of "close_date tz" "[]" lots k]
  by (simp add: group_by_close_date_def close_date_def[abs_def] lots_on_def)

lemma group_keys: "fst ` set (group_by_close_date tz lots) = close_date tz ` set lots"
  using group_fold_keys[of "close_date tz" "[]" lots]
  by (simp add: group_by_close_date_def close_date_def[abs_def])

lemma group_distinct: "distinct (map fst (group_by_close_date tz lots))"
  using group_fold_distinct[of "close_date tz" "[]" lots]
  by (simp add: group_by_close_date_def close_date_def[abs_def])

lemma update_fresh: "k \<notin> fst ` set al \<Longrightarrow> AList.update k v al = al @ [(k, v)]"
  by (induction al) auto

lemma daily_fold:
  "distinct (map fst dl) \<Longrightarrow> fst ` set acc \<inter> fst ` set dl = {} \<Longrightarrow>
   foldl (\<lambda>daily_pnl_dict (day, lots).
              AList.update day (sum_list (map realized_pnl lots), length lots) daily_pnl_dict) acc dl
     = acc @ map (\<lambda>(day, lots). (day, (sum_list (map realized_pnl lots), length lots))) dl"
proof (induction dl arbitrary: acc)
  case Nil
  then show ?case by simp
next
  case (Cons p dl)
  obtain day lots where p: "p = (day, lots)" by (cases p)
  have fresh: "day \<notin> fst ` set acc" using Cons.prems p by auto
  have disj: "fst ` set (acc @ [(day, (sum_list (map realized_pnl lots), length lots))]) \<inter> fst ` set dl = {}"
    using Cons.prems p by auto
  have dist: "distinct (map fst dl)" using Cons.prems by simp
  show ?case
    using Cons.IH[OF dist disj] by (simp add: p update_fresh[OF fresh])
qed

lemma daily_totals_map:
  "distinct (map fst dl) \<Longrightarrow>
   daily_totals dl = map (\<lambda>(day, lots). (day, (sum_list (map realized_pnl lots), length lots))) dl"
  using daily_fold[of dl "[]"] by (simp add: daily_totals_def)

lemma daily_keys:
  "map fst (daily_totals (group_by_close_date tz lots)) = map fst (group_by_close_date tz lots)"
  by (simp add: daily_totals_map[OF group_distinct] case_prod_unfold comp_def)

lemma daily_map_of:
  "map_of (daily_totals (group_by_close_date tz lots)) k =
     (if k \<in> close_date tz ` set lots then Some (day_total tz lots k) else None)"
  by (simp add: daily_totals_map[OF group_distinct] map_of_map group_map_of day_total_def)

lemma fill_gaps_map_of:
  "map_of (fill_gaps_loop c m d) k =
     (case map_of d k of
        Some v \<Rightarrow> Some v
      | None \<Rightarrow> if c \<le> k \<and> k \<le> m then Some (0, 0) else None)"
proof (induction c m d rule: fill_gaps_loop.induct)
  case (1 c m d)
  show ?case
  proof (cases "c \<le> m")
    case True
    then show ?thesis
      using "1.IH"[OF True]
      by (subst fill_gaps_loop.simps) (auto simp: AList.update_conv' split: option.splits)
  next
    case False
    then show ?thesis
      by (subst fill_gaps_loop.simps) (auto split: option.splits)
  qed
qed

lemma fill_gaps_keys:
  "fst ` set (fill_gaps_loop c m d) = fst ` set d \<union> {c..m}"
proof (induction c m d rule: fill_gaps_loop.induct)
  case (1 c m d)
  show ?case
  proof (cases "c \<le> m")
    case True
    have "{c..m} = insert c {c + 1..m}" using True by auto
    moreover have "map_of d c \<noteq> None \<Longrightarrow> c \<in> fst ` set d"
      by (metis map_of_eq_None_iff)
    ultimately show ?thesis
      using "1.IH"[OF True] True
      by (subst fill_gaps_loop.simps) (auto simp: AList.dom_update)
  next
    case False
    then show ?thesis by (subst fill_gaps_loop.simps) auto
  qed
qed

lemma fill_gaps_distinct:
  "distinct (map fst d) \<Longrightarrow> distinct (map fst (fill_gaps_loop c m d))"
proof (induction c m d rule: fill_gaps_loop.induct)
  case (1 c m d)
  show ?case
  proof (cases "c \<le> m")
    case True
    then show ?thesis
      using "1.IH"[OF True] "1.prems"
      by (subst fill_gaps_loop.simps) (simp add: AList.distinct_update)
  next
    case False
    then show ?thesis using "1.prems" by (subst fill_gaps_loop.simps) simp
  qed
qed

lemma build_rows_eq:
  "\<forall>day \<in> set days. map_of d day = Some (totals day) \<Longrightarrow>
   build_rows acct d days cumulative rows = Inr (rows @ rows_from acct totals days cumulative)"
proof (induction days arbitrary: cumulative rows)
  case Nil
  then show ?case by simp
next
  case (Cons day days)
  then show ?case by (cases "totals day") simp
qed

lemma rows_from_dates: "map date (rows_from acct totals days c) = days"
  by (induction days arbitrary: c) simp_all

lemma rows_from_length: "length (rows_from acct totals days c) = length days"
  by (induction days arbitrary: c) simp_all

lemma rows_from_daily:
  "row \<in> set (rows_from acct totals days c) \<Longrightarrow>
   daily_pnl row = quantize_half_up 2 (fst (totals (date row)))
   \<and> lots_closed row = snd (totals (date row)) \<and> pd_account_id row = acct"
  by (induction days arbitrary: c) auto

lemma rows_from_nth:
  "i < length days \<Longrightarrow>
   daily_pnl (rows_from acct totals days c ! i) = quantize_half_up 2 (fst (totals (days ! i)))
   \<and> cumulative_pnl (rows_from acct totals days c ! i)
       = quantize_half_up 2 (c + sum_list (map (\<lambda>d. fst (totals d)) (take (Suc i) days)))"
proof (induction days arbitrary: c i)
  case Nil
  then show ?case by simp
next
  case (Cons day days)
  show ?case
  proof (cases i)
    case 0
    then show ?thesis by simp
  next
    case (Suc j)
    then have "j < length days" using Cons.prems by simp
    from Cons.IH[OF this, of "c + fst (totals day)"] show ?thesis
      by (simp add: Suc add.assoc)
  qed
qed

lemma sum_day_totals:
  "finite K \<Longrightarrow> close_date tz ` set lots \<subseteq> K \<Longrightarrow>
   (\<Sum>k \<in> K. fst (day_total tz lots k)) = sum_list (map realized_pnl lots)"
proof (induction lots)
  case Nil
  then show ?case by (simp add: day_total_def lots_on_def)
next
  case (Cons l lots)
  have in_K: "close_date tz l \<in> K" using Cons.prems by simp
  have step: "\<And>k. fst (day_total tz (l # lots) k) =
          (if close_date tz l = k then realized_pnl l else 0) + fst (day_total tz lots k)"
    by (simp add: day_total_def lots_on_def)
  have "(\<Sum>k \<in> K. fst (day_total tz (l # lots) k)) =
        (\<Sum>k \<in> K. if close_date tz l = k then realized_pnl l else 0)
        + (\<Sum>k \<in> K. fst (day_total tz lots k))"
    by (simp add: step sum.distrib)
  also have "(\<Sum>k \<in> K. if close_date tz l = k then realized_pnl l else 0) = realized_pnl l"
    using Cons.prems(1) in_K by simp
  also have "(\<Sum>k \<in> K. fst (day_total tz lots k)) = sum_list (map realized_pnl lots)"
    using Cons.IH Cons.prems by simp
  finally show ?case by simp
qed

lemma day_total_cents:
  "\<forall>lot \<in> set lots. is_cents (realized_pnl lot) \<Longrightarrow> is_cents (fst (day_total tz lots k))"
  by (auto simp: day_total_def lots_on_def intro!: is_cents_sum_list)

lemma day_total_no_lots:
  "k \<notin> close_date tz ` set lots \<Longrightarrow> day_total tz lots k = (0, 0)"
proof -
  assume "k \<notin> close_date tz ` set lots"
  then have "lots_on tz lots k = []"
    by (auto simp: lots_on_def filter_empty_conv)
  then show ?thesis by (simp add: day_total_def)
qed

section \<open>The daily series\<close>

lemma series_days_props:
  assumes "lots \<noteq> []"
  shows "sorted (series_days tz lots fg)" "distinct (series_days tz lots fg)"
    "close_date tz ` set lots \<subseteq> set (series_days tz lots fg)"
    "series_days tz lots fg \<noteq> []"
proof -
  let ?D = "close_date tz ` set lots"
  have fin: "finite ?D" and ne: "?D \<noteq> {}" using assms by simp_all
  show "sorted (series_days tz lots fg)" "distinct (series_days tz lots fg)"
    by (simp_all add: series_days_def)
  show "?D \<subseteq> set (series_days tz lots fg)"
    using fin by (auto simp: series_days_def)
  have "Min ?D \<le> Max ?D" using fin ne by (meson Max_ge Min_in)
  then have "[Min ?D..Max ?D] \<noteq> []" by (simp only: upto_Nil not_less)
  moreover have "sorted_list_of_set ?D \<noteq> []"
    using fin ne by (metis set_sorted_list_of_set set_empty)
  ultimately show "series_days tz lots fg \<noteq> []"
    unfolding series_days_def by (cases fg) (simp_all only: if_True if_False not_False_eq_True)
qed

lemma series_eq:
  assumes "lots \<noteq> []"
  shows "generate_daily_pnl_series tz acct lots fg =
           Inr (rows_from acct (day_total tz lots) (series_days tz lots fg) 0)"
proof -
  let ?D = "close_date tz ` set lots"
  let ?d1 = "daily_totals (group_by_close_date tz lots)"
  let ?F = "(if fg then fill_gaps_loop (Min (set (map fst ?d1))) (Max (set (map fst ?d1))) ?d1 else ?d1)"
  have fin: "finite ?D" and ne: "?D \<noteq> {}" using assms by simp_all
  have keys1: "set (map fst ?d1) = ?D"
    using group_keys[of tz lots] by (simp add: daily_keys)
  have dist1: "distinct (map fst ?d1)"
    by (simp add: daily_keys group_distinct)
  have d1_ne: "?d1 \<noteq> []" using keys1 ne by auto
  have keysF: "set (map fst ?F) = set (series_days tz lots fg)"
  proof (cases fg)
    case True
    have "?D \<subseteq> {Min ?D..Max ?D}" using fin by auto
    then show ?thesis
      using True keys1 fill_gaps_keys[of "Min ?D" "Max ?D" ?d1]
      by (auto simp: series_days_def)
  next
    case False
    then show ?thesis using keys1 fin by (simp add: series_days_def)
  qed
  have distF: "distinct (map fst ?F)"
    using dist1 by (simp add: fill_gaps_distinct)
  have "sort (map fst ?F) = series_days tz lots fg"
    by (rule sorted_distinct_set_unique)
       (use keysF distF series_days_props[OF assms, of tz fg] in simp_all)
  moreover have "\<forall>day \<in> set (series_days tz lots fg). map_of ?F day = Some (day_total tz lots day)"
  proof
    fix day assume "day \<in> set (series_days tz lots fg)"
    then have inF: "day \<in> set (map fst ?F)" using keysF by simp
    show "map_of ?F day = Some (day_total tz lots day)"
    proof (cases fg)
      case False
      then show ?thesis using inF keys1 by (simp add: daily_map_of)
    next
      case True
      then have "day \<in> ?D \<or> (Min ?D \<le> day \<and> day \<le> Max ?D)"
        using inF keys1 fill_gaps_keys[of "Min ?D" "Max ?D" ?d1] by auto
      then show ?thesis
        using True keys1
        by (auto simp: fill_gaps_map_of daily_map_of day_total_no_lots)
    qed
  qed
  ultimately have "build_rows acct ?F (sort (map fst ?F)) 0 [] =
      Inr ([] @ rows_from acct (day_total tz lots) (series_days tz lots fg) 0)"
    using build_rows_eq[of "series_days tz lots fg" ?F "day_total tz lots" acct 0 "[]"]
    by simp
  then show ?thesis
    using assms d1_ne by (cases fg) (simp_all add: generate_daily_pnl_series_def Let_def)
qed

lemma generate_no_error:
  "\<exists>rows. generate_daily_pnl_series tz acct lots fg = Inr rows"
proof (cases "lots = []")
  case True
  then show ?thesis by (simp add: generate_daily_pnl_series_def)
next
  case False
  then show ?thesis by (simp add: series_eq)
qed

lemma process_trades_cents:
  "lot \<in> set (fst (process_trades engine trades)) \<Longrightarrow> is_cents (realized_pnl lot)"
  using process_trades_lots_ok[of engine trades]
  by (auto simp: list_all_iff lot_pnl_ok_def is_cents_quantized)

text \<open>
  Claim C6. For lots whose realized P&L has at most two fractional digits (the
  \<^verbatim>\<open>Numeric(18, 2)\<close> column of the data model, and what the engine emits), with or
  without gap filling: the series is returned without an error, its dates ascend
  strictly, the cumulative P&L of every row after the first is the cumulative P&L of
  the row before it plus the row's daily P&L, and for a non-empty lot list the
  cumulative P&L of the last row is the sum of the realized P&L of all lots.
\<close>

theorem cumulative_pnl_running_sum:
  assumes cents: "\<forall>lot \<in> set lots. is_cents (realized_pnl lot)"
  shows "\<exists>rows. generate_daily_pnl_series to_est_date acct lots fill_gaps = Inr rows
     \<and> sorted_wrt (<) (map date rows)
     \<and> (\<forall>i. 0 < i \<and> i < length rows \<longrightarrow>
           cumulative_pnl (rows ! i) = cumulative_pnl (rows ! (i - 1)) + daily_pnl (rows ! i))
     \<and> (lots \<noteq> [] \<longrightarrow>
           rows \<noteq> [] \<and> cumulative_pnl (last rows) = sum_list (map realized_pnl lots))"
proof (cases "lots = []")
  case True
  then show ?thesis by (simp add: generate_daily_pnl_series_def)
next
  case False
  let ?days = "series_days to_est_date lots fill_gaps"
  let ?tot = "day_total to_est_date lots"
  let ?rows = "rows_from acct ?tot ?days 0"
  note props = series_days_props[OF False, of to_est_date fill_gaps]
  have len: "length ?rows = length ?days" by (rule rows_from_length)
  have partial_cents: "\<And>n. is_cents (0 + sum_list (map (\<lambda>d. fst (?tot d)) (take n ?days)))"
    by (intro is_cents_add is_cents_0 is_cents_sum_list) (simp add: day_total_cents[OF cents])
  have cum: "\<And>i. i < length ?days \<Longrightarrow>
      cumulative_pnl (?rows ! i) = sum_list (map (\<lambda>d. fst (?tot d)) (take (Suc i) ?days))"
    using rows_from_nth[of _ ?days acct ?tot 0] is_cents_quantize[OF partial_cents]
    by simp
  have daily: "\<And>i. i < length ?days \<Longrightarrow> daily_pnl (?rows ! i) = fst (?tot (?days ! i))"
    using rows_from_nth[of _ ?days acct ?tot 0] is_cents_quantize[OF day_total_cents[OF cents]]
    by simp
  have rec: "\<forall>i. 0 < i \<and> i < length ?rows \<longrightarrow>
           cumulative_pnl (?rows ! i) = cumulative_pnl (?rows ! (i - 1)) + daily_pnl (?rows ! i)"
  proof (intro allI impI)
    fix i assume i: "0 < i \<and> i < length ?rows"
    then obtain j where j: "i = Suc j" by (cases i) auto
    have "take (Suc i) ?days = take i ?days @ [?days ! i]"
      using i len by (simp add: take_Suc_conv_app_nth)
    then show "cumulative_pnl (?rows ! i) = cumulative_pnl (?rows ! (i - 1)) + daily_pnl (?rows ! i)"
      using i len j by (simp add: cum daily)
  qed
  have ne: "?rows \<noteq> []" using props(4) len by (metis length_0_conv)
  have "cumulative_pnl (last ?rows) = cumulative_pnl (?rows ! (length ?days - 1))"
    using ne len by (simp add: last_conv_nth)
  also have "\<dots> = sum_list (map (\<lambda>d. fst (?tot d)) ?days)"
    using props(4) by (simp add: cum)
  also have "\<dots> = (\<Sum>k \<in> set ?days. fst (?tot k))"
    using props(2) by (simp add: sum_list_distinct_conv_sum_set)
  also have "\<dots> = sum_list (map realized_pnl lots)"
    using props(3) by (intro sum_day_totals) simp_all
  finally have last: "cumulative_pnl (last ?rows) = sum_list (map realized_pnl lots)" .
  have "sorted_wrt (<) (map date ?rows)"
    using props(1,2) by (simp add: rows_from_dates strict_sorted_iff)
  then show ?thesis
    using rec ne last by (simp add: series_eq[OF False])
qed

theorem cumulative_pnl_witness:
  "list_all (\<lambda>lot. is_cents (realized_pnl lot)) gap_example_lots
   \<and> sum_list (map realized_pnl gap_example_lots) = 1500
   \<and> (\<exists>rows. generate_daily_pnl_series est_fixed_date None gap_example_lots False = Inr rows
         \<and> length rows = 2
         \<and> cumulative_pnl (rows ! 1) = cumulative_pnl (rows ! 0) + daily_pnl (rows ! 1)
         \<and> cumulative_pnl (last rows) = 1500)"
proof -
  have ne: "gap_example_lots \<noteq> []" by (simp add: gap_example_lots_def)
  have cents: "\<forall>lot \<in> set gap_example_lots. is_cents (realized_pnl lot)"
    by (simp add: gap_example_lots_def is_cents_def)
  have total: "sum_list (map realized_pnl gap_example_lots) = 1500"
    by (simp add: gap_example_lots_def)
  have days: "series_days est_fixed_date gap_example_lots False = [738887, 738889]"
  proof -
    have "close_date est_fixed_date ` set gap_example_lots = {738887, 738889}"
      by (simp add: gap_example_lots_def close_date_def est_fixed_date_def)
    then show ?thesis by (simp add: series_days_def)
  qed
  from cumulative_pnl_running_sum[OF cents, of est_fixed_date None False]
  obtain rows where rows:
    "generate_daily_pnl_series est_fixed_date None gap_example_lots False = Inr rows"
    "\<forall>i. 0 < i \<and> i < length rows \<longrightarrow>
       cumulative_pnl (rows ! i) = cumulative_pnl (rows ! (i - 1)) + daily_pnl (rows ! i)"
    "cumulative_pnl (last rows) = sum_list (map realized_pnl gap_example_lots)"
    using ne by blast
  have len: "length rows = 2"
    using rows(1) by (simp add: series_eq[OF ne] days rows_from_length[symmetric]) auto
  have "cumulative_pnl (rows ! 1) = cumulative_pnl (rows ! 0) + daily_pnl (rows ! 1)"
    using rows(2)[rule_format, of 1] len by simp
  then show ?thesis using cents total rows(1,3) len by (simp add: list_all_iff)
qed

section \<open>Gap filling\<close>

lemma gap_example_dates:
  "map (close_date est_fixed_date) gap_example_lots = [738887, 738889]"
  by (simp add: gap_example_lots_def close_date_def est_fixed_date_def)

lemma gap_example_days: "series_days est_fixed_date gap_example_lots True = [738887, 738888, 738889]"
proof -
  have "close_date est_fixed_date ` set gap_example_lots = {738887, 738889}"
    using gap_example_dates by (metis list.set_map list.simps(15) empty_set)
  then show ?thesis by (simp add: series_days_def upto_rec1)
qed

lemma gap_example_series:
  "generate_daily_pnl_series est_fixed_date acct gap_example_lots True =
     Inr [\<lparr>pd_account_id = acct, date = 738887, daily_pnl = 1000, cumulative_pnl = 1000,
           lots_closed = 1\<rparr>,
          \<lparr>pd_account_id = acct, date = 738888, daily_pnl = 0, cumulative_pnl = 1000,
           lots_closed = 0\<rparr>,
          \<lparr>pd_account_id = acct, date = 738889, daily_pnl = 500, cumulative_pnl = 1500,
           lots_closed = 1\<rparr>]"
proof -
  have ne: "gap_example_lots \<noteq> []" by (simp add: gap_example_lots_def)
  have tot: "day_total est_fixed_date gap_example_lots 738887 = (1000, 1)"
    "day_total est_fixed_date gap_example_lots 738888 = (0, 0)"
    "day_total est_fixed_date gap_example_lots 738889 = (500, 1)"
    by (simp_all add: day_total_def lots_on_def gap_example_lots_def close_date_def
          est_fixed_date_def)
  show ?thesis
    by (simp add: series_eq[OF ne] gap_example_days tot quantize_half_up_def floor_rat_numeral)
qed

text \<open>
  Claim C7. For a non-empty lot list and gap filling on, the series is returned without
  an error, its dates are the run of consecutive days from the earliest to the latest
  closing date, and a row whose date is the closing date of no lot has daily P&L 0 and
  lot count 0. Lots closing on day 1 with P&L 1000 and on day 3 with P&L 500 give
  exactly three rows: day 2 has daily P&L 0 and cumulative P&L 1000, day 3 has
  cumulative P&L 1500.
\<close>

theorem gap_filled_series_contiguous:
  assumes "lots \<noteq> []"
  shows "(\<exists>rows. generate_daily_pnl_series to_est_date acct lots True = Inr rows
           \<and> map date rows = [Min (close_date to_est_date ` set lots) ..
                               Max (close_date to_est_date ` set lots)]
           \<and> (\<forall>row \<in> set rows. date row \<notin> close_date to_est_date ` set lots \<longrightarrow>
                 daily_pnl row = 0 \<and> lots_closed row = 0))
         \<and> generate_daily_pnl_series est_fixed_date acct gap_example_lots True =
             Inr [\<lparr>pd_account_id = acct, date = 738887, daily_pnl = 1000,
                   cumulative_pnl = 1000, lots_closed = 1\<rparr>,
                  \<lparr>pd_account_id = acct, date = 738888, daily_pnl = 0,
                   cumulative_pnl = 1000, lots_closed = 0\<rparr>,
                  \<lparr>pd_account_id = acct, date = 738889, daily_pnl = 500,
                   cumulative_pnl = 1500, lots_closed = 1\<rparr>]"
proof -
  let ?rows = "rows_from acct (day_total to_est_date lots) (series_days to_est_date lots True) 0"
  have "map date ?rows = [Min (close_date to_est_date ` set lots) ..
                               Max (close_date to_est_date ` set lots)]"
    by (simp add: rows_from_dates series_days_def)
  moreover have "\<forall>row \<in> set ?rows. date row \<notin> close_date to_est_date ` set lots \<longrightarrow>
                 daily_pnl row = 0 \<and> lots_closed row = 0"
    using rows_from_daily[of _ acct "day_total to_est_date lots"
            "series_days to_est_date lots True" 0]
    by (auto simp: day_total_no_lots is_cents_quantize[OF is_cents_0])
  ultimately show ?thesis
    using series_eq[OF assms, of to_est_date acct True] gap_example_series[of acct]
    by simp
qed

theorem gap_filled_series_witness:
  "gap_example_lots \<noteq> []
   \<and> close_date est_fixed_date ` set gap_example_lots = {738887, 738889}
   \<and> (\<exists>rows. generate_daily_pnl_series est_fixed_date None gap_example_lots True = Inr rows
         \<and> map date rows = [738887, 738888, 738889]
         \<and> map daily_pnl rows = [1000, 0, 500]
         \<and> map lots_closed rows = [1, 0, 1])"
proof -
  have ne: "gap_example_lots \<noteq> []" by (simp add: gap_example_lots_def)
  have dates: "close_date est_fixed_date ` set gap_example_lots = {738887, 738889}"
    by (simp add: gap_example_lots_def close_date_def est_fixed_date_def)
  from gap_filled_series_contiguous[OF ne, of est_fixed_date None]
  show ?thesis using ne dates by auto
qed

section \<open>Empty input\<close>

text \<open>
  Claim C8. On an empty trade list \<^verbatim>\<open>process_trades\<close> returns the empty lot list,
  whatever state the engine was in; on an empty lot list
  \<^verbatim>\<open>generate_daily_pnl_series\<close> returns the empty series without an error, with
  or without gap filling, and \<^verbatim>\<open>calculate_aggregates\<close> returns the
  \<^verbatim>\<open>Aggregate\<close> that carries the account identifier and no other value.
\<close>

theorem empty_input_results:
  "fst (process_trades engine []) = []
   \<and> generate_daily_pnl_series to_est_date acct [] fill_gaps = Inr []
   \<and> calculate_aggregates to_est_date acct [] per_day_pnl = Aggregate_of_account acct"
  by (simp add: process_trades_def generate_daily_pnl_series_def calculate_aggregates_def)

section \<open>Ratios of the aggregate\<close>

text \<open>
  What the calculator returns for a non-empty lot list: the rounded sum and the counts,
  a win rate when some lot wins, a profit factor when there are losses and gains.
\<close>

lemma aggregates_totals:
  "lots \<noteq> [] \<Longrightarrow>
   total_realized_pnl (calculate_aggregates to_est_date acct lots per_day_pnl)
     = Some (quantize_half_up 2 (sum_list (map realized_pnl lots)))
   \<and> total_lots_closed (calculate_aggregates to_est_date acct lots per_day_pnl)
     = Some (length lots)
   \<and> winning_lots (calculate_aggregates to_est_date acct lots per_day_pnl)
     = Some (length (filter (\<lambda>lot. realized_pnl lot > 0) lots))"
  by (simp add: calculate_aggregates_def Let_def)

lemma aggregates_win_rate:
  "lots \<noteq> [] \<Longrightarrow>
   win_rate (calculate_aggregates to_est_date acct lots per_day_pnl)
     = (if filter (\<lambda>lot. realized_pnl lot > 0) lots = [] then None
        else Some (quantize_half_up 4
               (of_nat (length (filter (\<lambda>lot. realized_pnl lot > 0) lots))
                / of_nat (length lots))))"
  by (simp add: calculate_aggregates_def Let_def quantize_if_truthy_def)

lemma aggregates_profit_factor:
  "lots \<noteq> [] \<Longrightarrow>
   profit_factor (calculate_aggregates to_est_date acct lots per_day_pnl)
     = (if sum_list (map realized_pnl (filter (\<lambda>lot. realized_pnl lot < 0) lots)) < 0
           \<and> sum_list (map realized_pnl (filter (\<lambda>lot. realized_pnl lot > 0) lots)) \<noteq> 0
        then Some (quantize_half_up 2
               (sum_list (map realized_pnl (filter (\<lambda>lot. realized_pnl lot > 0) lots))
                / \<bar>sum_list (map realized_pnl (filter (\<lambda>lot. realized_pnl lot < 0) lots))\<bar>))
        else None)"
  by (auto simp: calculate_aggregates_def Let_def quantize_if_truthy_def)

text \<open>
  Claim C3, at a lot list without a winning lot. For the single losing lot the
  calculator counts no winning lot among one closed lot and leaves \<^verbatim>\<open>win_rate\<close>
  absent: the quotient \<open>0 / 1\<close> is a zero \<^verbatim>\<open>Decimal\<close>, which the conditional
  expression \<^verbatim>\<open>win_rate.quantize(...) if win_rate else None\<close> takes for false.
\<close>

theorem win_rate_absent_without_winners:
  "win_rate (calculate_aggregates to_est_date acct [losing_lot] per_day_pnl) = None
   \<and> winning_lots (calculate_aggregates to_est_date acct [losing_lot] per_day_pnl) = Some 0
   \<and> total_lots_closed (calculate_aggregates to_est_date acct [losing_lot] per_day_pnl)
       = Some 1"
  by (simp add: calculate_aggregates_def losing_lot_def quantize_if_truthy_def Let_def)

text \<open>
  Claim C4, at a lot list with losses and no gains. For the single losing lot the
  total losses are \<open>-1000.00\<close> and the total gains \<open>0.00\<close>, and the calculator
  leaves \<^verbatim>\<open>profit_factor\<close> absent: the quotient \<open>0 / 1000\<close> is a zero
  \<^verbatim>\<open>Decimal\<close>, false in \<^verbatim>\<open>profit_factor.quantize(...) if profit_factor else None\<close>.
\<close>

theorem profit_factor_absent_without_gains:
  "profit_factor (calculate_aggregates to_est_date acct [losing_lot] per_day_pnl) = None
   \<and> total_losses (calculate_aggregates to_est_date acct [losing_lot] per_day_pnl)
       = Some (- 1000)
   \<and> total_gains (calculate_aggregates to_est_date acct [losing_lot] per_day_pnl) = Some 0"
  by (simp add: calculate_aggregates_def losing_lot_def quantize_if_truthy_def
        quantize_half_up_def Let_def floor_rat_numeral)

section \<open>Streaks\<close>

text \<open>
  Claim C5, at a winning lot followed by a breakeven lot. The breakeven branch resets
  the two run counters and leaves \<^verbatim>\<open>current_streak\<close> as the winning lot set it,
  so the function returns a current streak of 1.
\<close>

theorem current_streak_kept_on_breakeven:
  "calculate_streaks [winning_lot, breakeven_lot] =
     [(''current_streak'', 1), (''longest_win_streak'', 1), (''longest_loss_streak'', 0)]"
  by (simp add: calculate_streaks_def streak_step_def winning_lot_def breakeven_lot_def)

section \<open>Idempotence of the pipeline\<close>

lemma process_trades_reset:
  "process_trades engine trades = process_trades FIFOEngine_init trades"
  by (cases engine) (simp add: process_trades_def FIFOEngine_init_def)

text \<open>
  Claim C9. \<^verbatim>\<open>process_trades\<close> overwrites both queue maps and the lot list before
  its loop, so a pipeline run on an engine in any state returns what a run on a fresh
  engine returns, outputs and final engine alike; in particular a second run on the
  engine the first run leaves behind returns the outputs of the first. Every run
  returns its three outputs, never an error.
\<close>

theorem pipeline_idempotent:
  "run_pipeline to_est_date acct engine trades
     = run_pipeline to_est_date acct FIFOEngine_init trades
   \<and> fst (run_pipeline to_est_date acct
            (snd (run_pipeline to_est_date acct engine trades)) trades)
       = fst (run_pipeline to_est_date acct engine trades)
   \<and> (\<exists>lots series aggregate.
         fst (run_pipeline to_est_date acct engine trades) = Inr (lots, series, aggregate))"
proof -
  have same: "run_pipeline to_est_date acct e trades
                = run_pipeline to_est_date acct FIFOEngine_init trades" for e
    unfolding run_pipeline_def by (metis process_trades_reset)
  obtain lots engine' where run: "process_trades engine trades = (lots, engine')"
    by (cases "process_trades engine trades")
  obtain series where "generate_daily_pnl_series to_est_date acct lots True = Inr series"
    using generate_no_error by blast
  then have "\<exists>lots series aggregate.
      fst (run_pipeline to_est_date acct engine trades) = Inr (lots, series, aggregate)"
    by (simp add: run_pipeline_def run)
  then show ?thesis using same[of engine] same by metis
qed

end
